theory Spec2Isabelle
  imports Complex_Main
begin

section \<open>Characters and character classes\<close>

text \<open>
  The kitten works on Python \<open>str\<close> values. A string is modelled as a \<open>string\<close>, one
  \<open>char\<close> per code point, so the model covers the code points U+0000 to U+00FF.
  The classes below are the ones Python's \<open>re\<close> and \<open>str\<close> use on that range.
\<close>

definition ord :: "char \<Rightarrow> nat" where
  "ord c = of_char c"

definition is_space :: "char \<Rightarrow> bool" where
  \<comment> \<open>the class \<open>\s\<close> of a \<open>str\<close> pattern\<close>
  "is_space c = (let n = ord c in
     (9 \<le> n \<and> n \<le> 13) \<or> (28 \<le> n \<and> n \<le> 32) \<or> n = 133 \<or> n = 160)"

definition is_word :: "char \<Rightarrow> bool" where
  \<comment> \<open>the class \<open>[\w\d]\<close>: alphanumerics and the underscore\<close>
  "is_word c = (let n = ord c in
     (48 \<le> n \<and> n \<le> 57) \<or> (65 \<le> n \<and> n \<le> 90) \<or> n = 95 \<or> (97 \<le> n \<and> n \<le> 122) \<or>
     n = 170 \<or> (178 \<le> n \<and> n \<le> 179) \<or> n = 181 \<or> (185 \<le> n \<and> n \<le> 186) \<or>
     (188 \<le> n \<and> n \<le> 190) \<or> (192 \<le> n \<and> n \<le> 214) \<or> (216 \<le> n \<and> n \<le> 246) \<or>
     (248 \<le> n \<and> n \<le> 255))"

definition is_lower :: "char \<Rightarrow> bool" where
  \<comment> \<open>a lowercase cased character (\<open>str.islower\<close> on one character)\<close>
  "is_lower c = (let n = ord c in
     (97 \<le> n \<and> n \<le> 122) \<or> n = 170 \<or> n = 181 \<or> n = 186 \<or> (223 \<le> n \<and> n \<le> 246) \<or>
     (248 \<le> n \<and> n \<le> 255))"

definition is_upper :: "char \<Rightarrow> bool" where
  \<comment> \<open>an uppercase or titlecase character\<close>
  "is_upper c = (let n = ord c in
     (65 \<le> n \<and> n \<le> 90) \<or> (192 \<le> n \<and> n \<le> 214) \<or> (216 \<le> n \<and> n \<le> 222))"

definition islower :: "string \<Rightarrow> bool" where
  \<comment> \<open>\<open>str.islower\<close>: no uppercase character and at least one lowercase one\<close>
  "islower text = (list_all (\<lambda>c. \<not> is_upper c) text \<and> list_ex is_lower text)"

section \<open>Regular expression patterns for text navigation\<close>

text \<open>
  The six compiled patterns are a character class repeated one or more times, alone,
  followed by \<open>$\<close> or preceded by \<open>^\<close>.
\<close>

datatype char_class = Space | NonAlphanum

datatype anchor = Unanchored | AtEnd | AtStart

datatype pattern = Pattern char_class anchor

fun in_class :: "char_class \<Rightarrow> char \<Rightarrow> bool" where
  "in_class Space c = is_space c"
| "in_class NonAlphanum c = (\<not> is_word c)"

definition SPACE_PATTERN :: pattern where
  "SPACE_PATTERN = Pattern Space Unanchored"

definition SPACE_PATTERN_END :: pattern where
  "SPACE_PATTERN_END = Pattern Space AtEnd"

definition SPACE_PATTERN_START :: pattern where
  "SPACE_PATTERN_START = Pattern Space AtStart"

definition NON_ALPHANUM_PATTERN :: pattern where
  "NON_ALPHANUM_PATTERN = Pattern NonAlphanum Unanchored"

definition NON_ALPHANUM_PATTERN_END :: pattern where
  "NON_ALPHANUM_PATTERN_END = Pattern NonAlphanum AtEnd"

definition NON_ALPHANUM_PATTERN_START :: pattern where
  "NON_ALPHANUM_PATTERN_START = Pattern NonAlphanum AtStart"

definition at_dollar :: "string \<Rightarrow> nat \<Rightarrow> bool" where
  \<comment> \<open>\<open>$\<close> without MULTILINE: the end of the text, or just before a final newline\<close>
  "at_dollar text j = (j = length text \<or> (Suc j = length text \<and> text ! j = CHR 0x0A))"

fun start_ok :: "anchor \<Rightarrow> nat \<Rightarrow> bool" where
  "start_ok AtStart i = (i = 0)"
| "start_ok a i = True"

fun end_ok :: "anchor \<Rightarrow> string \<Rightarrow> nat \<Rightarrow> bool" where
  "end_ok AtEnd text j = at_dollar text j"
| "end_ok a text j = True"

definition run_len :: "char_class \<Rightarrow> string \<Rightarrow> nat \<Rightarrow> nat" where
  \<comment> \<open>the number of class characters the repetition can take at position \<open>i\<close>\<close>
  "run_len cls text i = length (takeWhile (in_class cls) (drop i text))"

fun match_at :: "pattern \<Rightarrow> string \<Rightarrow> nat \<Rightarrow> nat option" where
  \<comment> \<open>the end of the match that starts at \<open>i\<close>: the repetition is greedy and gives
      characters back, one at a time, until what follows it matches\<close>
  "match_at (Pattern cls a) text i =
     (if start_ok a i
      then find (end_ok a text) (rev [Suc i ..< Suc (i + run_len cls text i)])
      else None)"

function search_from :: "pattern \<Rightarrow> string \<Rightarrow> nat \<Rightarrow> (nat \<times> nat) option" where
  \<comment> \<open>the first match at or after \<open>pos\<close>: start positions are tried left to right\<close>
  "search_from pat text pos =
     (if length text < pos then None
      else case match_at pat text pos of
             Some e \<Rightarrow> Some (pos, e)
           | None \<Rightarrow> search_from pat text (Suc pos))"
  by pat_completeness auto
termination
  by (relation "measure (\<lambda>(pat, text, pos). Suc (length text) - pos)") auto

definition search :: "pattern \<Rightarrow> string \<Rightarrow> (nat \<times> nat) option" where
  \<comment> \<open>\<open>pattern.search(text)\<close>, as the span of the match\<close>
  "search pat text = search_from pat text 0"

function finditer_from :: "pattern \<Rightarrow> string \<Rightarrow> nat \<Rightarrow> (nat \<times> nat) list" where
  \<comment> \<open>the matches from \<open>pos\<close> on: each search resumes where the last match ended\<close>
  "finditer_from pat text pos =
     (case search_from pat text pos of
        None \<Rightarrow> []
      | Some (s, e) \<Rightarrow> (s, e) # finditer_from pat text e)"
  by pat_completeness auto
termination
proof (relation "measure (\<lambda>(pat, text, pos). Suc (length text) - pos)")
  show "wf (measure (\<lambda>(pat, text, pos). Suc (length text) - pos))"
    by simp
next
  fix pat :: pattern and tx :: string and pos :: nat and x2 :: "nat \<times> nat" and s e :: nat
  assume found: "search_from pat tx pos = Some x2" and x2: "(s, e) = x2"
  have bounds: "search_from pat tx p = Some (a, b) \<Longrightarrow> p \<le> a \<and> a < b \<and> b \<le> length tx"
    for p a b
  proof (induction pat tx p rule: search_from.induct)
    case (1 pat tx pos)
    obtain cls an where pat: "pat = Pattern cls an"
      by (cases pat)
    show ?case
    proof (cases "match_at pat tx pos")
      case None
      with "1.prems" have "\<not> length tx < pos" and "search_from pat tx (Suc pos) = Some (a, b)"
        by (auto split: if_splits)
      with "1.IH" None show ?thesis
        by fastforce
    next
      case (Some e')
      with "1.prems" have ab: "a = pos" "b = e'" and le: "\<not> length tx < pos"
        by (auto split: if_splits)
      define ends where "ends = rev [Suc pos ..< Suc (pos + run_len cls tx pos)]"
      from Some pat have "find (end_ok an tx) ends = Some e'"
        by (simp add: ends_def split: if_splits)
      then obtain i where "i < length ends" and "e' = ends ! i"
        unfolding find_Some_iff by blast
      then have "e' \<in> set ends"
        by simp
      then have "e' \<in> set (rev [Suc pos ..< Suc (pos + run_len cls tx pos)])"
        by (simp only: ends_def)
      moreover have "pos + run_len cls tx pos \<le> length tx"
        using le length_takeWhile_le [of "in_class cls" "drop pos tx"]
        by (simp add: run_len_def)
      ultimately show ?thesis
        using ab by auto
    qed
  qed
  from found x2 have "search_from pat tx pos = Some (s, e)"
    by simp
  from bounds [OF this]
  show "((pat, tx, e), (pat, tx, pos)) \<in> measure (\<lambda>(pat, text, pos). Suc (length text) - pos)"
    by auto
qed

declare search_from.simps [simp del] finditer_from.simps [simp del]

definition finditer :: "pattern \<Rightarrow> string \<Rightarrow> (nat \<times> nat) list" where
  \<comment> \<open>\<open>list(pattern.finditer(text))\<close>, as the spans of the matches\<close>
  "finditer pat text = finditer_from pat text 0"

datatype py_error = ValueError

definition reindex :: "string \<Rightarrow> pattern \<Rightarrow> bool \<Rightarrow> py_error + (nat \<times> nat)" where
  "reindex text pat right =
     (if \<not> right
      then (case search pat text of
              None \<Rightarrow> Inl ValueError
            | Some m \<Rightarrow> Inr m)
      else (let matches = finditer pat text in
            if matches = [] then Inl ValueError
            else Inr (last matches)))"

section \<open>Python string operations\<close>

definition str_index :: "string \<Rightarrow> char \<Rightarrow> py_error + nat" where
  \<comment> \<open>\<open>s.index(d)\<close> for a one-character \<open>d\<close>: the lowest index, or ValueError\<close>
  "str_index s d =
     (case find (\<lambda>i. s ! i = d) [0 ..< length s] of
        None \<Rightarrow> Inl ValueError
      | Some i \<Rightarrow> Inr i)"

definition str_rindex :: "string \<Rightarrow> char \<Rightarrow> py_error + nat" where
  \<comment> \<open>\<open>s.rindex(d)\<close> for a one-character \<open>d\<close>: the highest index, or ValueError\<close>
  "str_rindex s d =
     (case find (\<lambda>i. s ! i = d) (rev [0 ..< length s]) of
        None \<Rightarrow> Inl ValueError
      | Some i \<Rightarrow> Inr i)"

definition slice_to :: "string \<Rightarrow> int \<Rightarrow> string" where
  \<comment> \<open>\<open>s[:stop]\<close>: a negative \<open>stop\<close> counts from the end\<close>
  "slice_to s stop =
     (if stop < 0 then take (nat (int (length s) + stop)) s else take (nat stop) s)"

definition slice_from :: "string \<Rightarrow> int \<Rightarrow> string" where
  \<comment> \<open>\<open>s[start:]\<close>: a negative \<open>start\<close> counts from the end\<close>
  "slice_from s start =
     (if start < 0 then drop (nat (int (length s) + start)) s else drop (nat start) s)"

function str_nat :: "nat \<Rightarrow> string" where
  "str_nat n =
     (if n < 10 then [''0123456789'' ! n]
      else str_nat (n div 10) @ [''0123456789'' ! (n mod 10)])"
  by pat_completeness auto
termination
  by (relation "measure id") auto

definition str_int :: "int \<Rightarrow> string" where
  \<comment> \<open>\<open>str(i)\<close>, as the f-string of \<open>match_args\<close> formats a window id\<close>
  "str_int i = (if i < 0 then CHR ''-'' # str_nat (nat (- i)) else str_nat (nat i))"

section \<open>The line editor\<close>

text \<open>
  \<open>LineEdit\<close> is a class of the terminal's own library. Its operations are modelled
  from the contract the specification gives for it (LineBuffer): the input text and a
  cursor offset into it.
\<close>

record line_edit =
  current_input :: string
  cursor_pos :: nat

definition LineEdit :: line_edit where
  \<comment> \<open>Modelled from the spec: a new line editor, empty with the cursor at 0.\<close>
  "LineEdit = \<lparr>current_input = [], cursor_pos = 0\<rparr>"

definition le_clear :: "line_edit \<Rightarrow> line_edit" where
  \<comment> \<open>Modelled from the spec: \<open>clear()\<close> of LineBuffer empties the text.\<close>
  "le_clear le = le\<lparr>current_input := [], cursor_pos := 0\<rparr>"

definition split_at_cursor :: "line_edit \<Rightarrow> string \<times> string" where
  \<comment> \<open>Modelled from the spec: \<open>splitAtCursor() -> (before, after)\<close> of LineBuffer.\<close>
  "split_at_cursor le =
     (take (cursor_pos le) (current_input le), drop (cursor_pos le) (current_input le))"

definition add_text :: "string \<Rightarrow> line_edit \<Rightarrow> line_edit" where
  \<comment> \<open>Modelled from the spec: \<open>insertText(s)\<close> of LineBuffer inserts at the cursor,
      which moves past the inserted text.\<close>
  "add_text s le =
     (let (before, after) = split_at_cursor le in
      le\<lparr>current_input := before @ s @ after, cursor_pos := length before + length s\<rparr>)"

definition backspace :: "int \<Rightarrow> line_edit \<Rightarrow> line_edit" where
  \<comment> \<open>Modelled from the spec: \<open>backspace(n)\<close> of LineBuffer removes \<open>n\<close> characters
      before the cursor (all of them when there are fewer).\<close>
  "backspace n le =
     (let (before, after) = split_at_cursor le;
          nbefore = take (length before - nat n) before in
      le\<lparr>current_input := nbefore @ after, cursor_pos := length nbefore\<rparr>)"

definition le_left :: "int \<Rightarrow> line_edit \<Rightarrow> line_edit" where
  \<comment> \<open>Modelled from the spec: \<open>left(n)\<close> of LineBuffer moves the cursor by \<open>n\<close>,
      clamped to the bounds.\<close>
  "le_left n le = le\<lparr>cursor_pos := cursor_pos le - nat n\<rparr>"

definition le_right :: "int \<Rightarrow> line_edit \<Rightarrow> line_edit" where
  \<comment> \<open>Modelled from the spec: \<open>right(n)\<close> of LineBuffer moves the cursor by \<open>n\<close>,
      clamped to the bounds.\<close>
  "le_right n le = le\<lparr>cursor_pos := min (length (current_input le)) (cursor_pos le + nat n)\<rparr>"

definition home :: "line_edit \<Rightarrow> line_edit" where
  \<comment> \<open>Modelled from the spec: \<open>home()\<close> of LineBuffer.\<close>
  "home le = le\<lparr>cursor_pos := 0\<rparr>"

definition le_end :: "line_edit \<Rightarrow> line_edit" where
  \<comment> \<open>Modelled from the spec: \<open>end()\<close> of LineBuffer.\<close>
  "le_end le = le\<lparr>cursor_pos := length (current_input le)\<rparr>"

section \<open>The search handler\<close>

datatype event_type = PRESS | REPEAT | RELEASE

text \<open>
  A key event carries its type, the name of its key and its \<open>matches\<close> method, which
  says whether the event is a given shortcut.
\<close>

record key_event =
  ev_type :: event_type
  key :: string
  matches :: "string \<Rightarrow> bool"

text \<open>
  The fields of the handler, and with them what it reaches outside itself: the log of
  the remote control commands it has run (\<open>calls\<close>), the code it left the loop with
  (\<open>quit_code\<close>), and the wall clock, as the readings \<open>time.time()\<close> returns in turn
  (\<open>clock\<close>) and the number of readings taken so far (\<open>ticks\<close>).
  \<open>scrollmark_file\<close> is the module constant \<open>SCROLLMARK_FILE\<close>, a path fixed when the
  module is loaded.
\<close>

record search =
  cached_values :: "string \<rightharpoonup> string"
  window_ids :: "int list"
  error :: string
  line_edit :: line_edit
  text_marked :: bool
  mode :: string
  prompt :: string
  last_mark_text :: string
  last_mark_time :: real
  calls :: "string list list"
  quit_code :: "int option"
  clock :: "nat \<Rightarrow> real"
  ticks :: nat
  scrollmark_file :: string

definition MARK_DEBOUNCE_INTERVAL :: real where
  "MARK_DEBOUNCE_INTERVAL = 0.05"

definition call_remote_control :: "string list \<Rightarrow> search \<Rightarrow> search" where
  \<comment> \<open>runs \<open>kitty @ args\<close> and ignores how it ends\<close>
  "call_remote_control args st = st\<lparr>calls := calls st @ [args]\<rparr>"

definition time_time :: "search \<Rightarrow> real \<times> search" where
  \<comment> \<open>\<open>time.time()\<close>: the next reading of the clock\<close>
  "time_time st = (clock st (ticks st), st\<lparr>ticks := Suc (ticks st)\<rparr>)"

definition quit_loop :: "int \<Rightarrow> search \<Rightarrow> search" where
  "quit_loop return_code st = st\<lparr>quit_code := Some return_code\<rparr>"

definition update_prompt :: "search \<Rightarrow> search" where
  "update_prompt st = st\<lparr>prompt := (if mode st = ''regex'' then ''~> '' else ''=> '')\<rparr>"

definition draw_screen :: "search \<Rightarrow> search" where
  \<comment> \<open>writes to the terminal, which is not part of the model; the styled text it puts
      into the line editor for the write is taken out again\<close>
  "draw_screen st = st"

definition match_args :: "search \<Rightarrow> string list" where
  "match_args st = map (\<lambda>window_id. ''--match=id:'' @ str_int window_id) (window_ids st)"

definition remove_mark :: "search \<Rightarrow> search" where
  "remove_mark st =
     foldl (\<lambda>s match_arg. call_remote_control [''remove-marker'', match_arg] s) st (match_args st)"

definition mark :: "search \<Rightarrow> search" where
  \<comment> \<open>\<open>call_remote_control\<close> never raises SystemExit, so the handler of the loop
      is not entered\<close>
  "mark st =
     (if window_ids st = [] then st
      else
        let text = current_input (line_edit st);
            (current_time, st1) = time_time st
        in
          if text = last_mark_text st1 \<and>
             current_time - last_mark_time st1 < MARK_DEBOUNCE_INTERVAL
          then st1
          else
            let st2 = st1\<lparr>last_mark_text := text, last_mark_time := current_time\<rparr> in
            if text \<noteq> []
            then
              let match_case = (if islower text then ''i'' else []);
                  match_type = match_case @ mode st2
              in foldl (\<lambda>s match_arg.
                          call_remote_control [''create-marker'', match_arg, match_type, ''1'', text] s)
                       st2 (match_args st2)
            else remove_mark st2)"

definition refresh :: "search \<Rightarrow> search" where
  "refresh st = mark (draw_screen st)"

definition init :: "(string \<rightharpoonup> string) \<Rightarrow> int list \<Rightarrow> string \<Rightarrow> string \<Rightarrow> (nat \<Rightarrow> real) \<Rightarrow> search" where
  \<comment> \<open>\<open>Search.__init__\<close>; the last two arguments are the module constant
      \<open>SCROLLMARK_FILE\<close> and the clock the handler will read\<close>
  "init cached window_ids' error' scrollmark clock' =
     (let last_search = (case cached ''last_search'' of None \<Rightarrow> [] | Some v \<Rightarrow> v);
          st = \<lparr>cached_values = cached,
                window_ids = window_ids',
                error = error',
                line_edit = add_text last_search LineEdit,
                text_marked = (last_search \<noteq> []),
                mode = (case cached ''mode'' of None \<Rightarrow> ''text'' | Some m \<Rightarrow> m),
                prompt = [],
                last_mark_text = [],
                last_mark_time = 0,
                calls = [],
                quit_code = None,
                clock = clock',
                ticks = 0,
                scrollmark_file = scrollmark\<rparr>
      in mark (update_prompt st))"

definition switch_mode :: "search \<Rightarrow> search" where
  "switch_mode st =
     (let m = (if mode st = ''text'' then ''regex'' else ''text'') in
      update_prompt (st\<lparr>mode := m, cached_values := (cached_values st)(''mode'' \<mapsto> m)\<rparr>))"

definition on_text :: "string \<Rightarrow> bool \<Rightarrow> search \<Rightarrow> search" where
  "on_text text in_bracketed_paste st =
     (let st1 = (if text_marked st
                 then st\<lparr>text_marked := False, line_edit := le_clear (line_edit st)\<rparr>
                 else st)
      in refresh (st1\<lparr>line_edit := add_text text (line_edit st1)\<rparr>))"

definition should_clear_mark :: "search \<Rightarrow> key_event \<Rightarrow> bool" where
  "should_clear_mark st key_event =
     (let modifier_keys = {''TAB'', ''LEFT_CONTROL'', ''RIGHT_CONTROL'', ''LEFT_ALT'', ''RIGHT_ALT'',
                           ''LEFT_SHIFT'', ''RIGHT_SHIFT'', ''LEFT_SUPER'', ''RIGHT_SUPER''}
      in text_marked st \<and> ev_type key_event = PRESS \<and> key key_event \<notin> modifier_keys)"

definition delete_word :: "bool \<Rightarrow> search \<Rightarrow> search" where
  "delete_word use_whitespace st =
     (let (before, _) = split_at_cursor (line_edit st);
          (end_pattern, delimiter) =
            (if use_whitespace then (SPACE_PATTERN_END, Some (CHR '' ''))
             else (NON_ALPHANUM_PATTERN_END, None));
          start = (case reindex before end_pattern True of
                     Inr (start, _) \<Rightarrow> int start
                   | Inl ValueError \<Rightarrow> - 1);
          n = (case delimiter of
                 Some d \<Rightarrow>
                   (let space = (case str_rindex (slice_to before start) d of
                                   Inr i \<Rightarrow> int i
                                 | Inl ValueError \<Rightarrow> 0)
                    in int (length before) - space)
               | None \<Rightarrow>
                   (if start \<noteq> - 1 then int (length before) - start
                    else (case reindex before NON_ALPHANUM_PATTERN True of
                            Inr (start, _) \<Rightarrow> int (length before) - (int start + 1)
                          | Inl ValueError \<Rightarrow> int (length before))))
      in refresh (st\<lparr>line_edit := backspace n (line_edit st)\<rparr>))"

definition move_word_left :: "bool \<Rightarrow> search \<Rightarrow> search" where
  "move_word_left use_whitespace st =
     (let (before, _) = split_at_cursor (line_edit st);
          (end_pattern, delimiter) =
            (if use_whitespace then (SPACE_PATTERN_END, Some (CHR '' ''))
             else (NON_ALPHANUM_PATTERN_END, None));
          start = (case reindex before end_pattern True of
                     Inr (start, _) \<Rightarrow> int start
                   | Inl ValueError \<Rightarrow> - 1);
          n = (case delimiter of
                 Some d \<Rightarrow>
                   (let space = (case str_rindex (slice_to before start) d of
                                   Inr i \<Rightarrow> int i
                                 | Inl ValueError \<Rightarrow> 0)
                    in int (length before) - space)
               | None \<Rightarrow>
                   (if start \<noteq> - 1 then int (length before) - start
                    else (case reindex before NON_ALPHANUM_PATTERN True of
                            Inr (start, _) \<Rightarrow> int (length before) - (int start + 1)
                          | Inl ValueError \<Rightarrow> int (length before))))
      in refresh (st\<lparr>line_edit := le_left n (line_edit st)\<rparr>))"

definition move_word_right :: "bool \<Rightarrow> search \<Rightarrow> search" where
  "move_word_right use_whitespace st =
     (let (_, after) = split_at_cursor (line_edit st);
          (start_pattern, delimiter) =
            (if use_whitespace then (SPACE_PATTERN_START, Some (CHR '' ''))
             else (NON_ALPHANUM_PATTERN_START, None));
          end' = (case reindex after start_pattern False of
                    Inr (_, end') \<Rightarrow> int end'
                  | Inl ValueError \<Rightarrow> 0);
          n = (case delimiter of
                 Some d \<Rightarrow>
                   (case str_index (slice_from after end') d of
                      Inr i \<Rightarrow> int i + 1
                    | Inl ValueError \<Rightarrow> int (length after))
               | None \<Rightarrow>
                   (if end' > 0 then end'
                    else (case reindex after NON_ALPHANUM_PATTERN False of
                            Inr (_, end') \<Rightarrow> int end' - 1
                          | Inl ValueError \<Rightarrow> int (length after))))
      in refresh (st\<lparr>line_edit := le_right n (line_edit st)\<rparr>))"

definition navigate_to_match :: "bool \<Rightarrow> search \<Rightarrow> search" where
  "navigate_to_match forward st =
     (let args = (if forward then [''next''] else []) in
      foldl (\<lambda>s match_arg.
               call_remote_control ([''kitten'', match_arg, scrollmark_file s] @ args) s)
            st (match_args st))"

definition quit :: "int \<Rightarrow> search \<Rightarrow> search" where
  "quit return_code st =
     (let st1 = st\<lparr>cached_values :=
                     (cached_values st)(''last_search'' \<mapsto> current_input (line_edit st))\<rparr>;
          st2 = remove_mark st1;
          st3 = (if return_code \<noteq> 0
                 then foldl (\<lambda>s match_arg.
                               call_remote_control [''scroll-window'', match_arg, ''end''] s)
                            st2 (match_args st2)
                 else st2)
      in quit_loop return_code st3)"

definition on_interrupt :: "search \<Rightarrow> search" where
  "on_interrupt st = quit 1 st"

definition on_eot :: "search \<Rightarrow> search" where
  "on_eot st = quit 1 st"

definition on_resize :: "search \<Rightarrow> search" where
  "on_resize st = refresh st"

text \<open>
  \<open>LineEdit.on_key\<close> belongs to the terminal's library and the specification gives no
  contract for it: \<open>on_key\<close> takes it as its first argument, a function from the event
  and the line editor to whether it handled the key and the line editor it leaves.
\<close>

definition on_key :: "(key_event \<Rightarrow> line_edit \<Rightarrow> bool \<times> line_edit) \<Rightarrow> key_event \<Rightarrow> search \<Rightarrow> search" where
  "on_key line_edit_on_key key_event st =
     (let st1 = (if should_clear_mark st key_event
                 then refresh (st\<lparr>text_marked := False\<rparr>)
                 else st);
          (handled, le) = line_edit_on_key key_event (line_edit st1);
          st2 = st1\<lparr>line_edit := le\<rparr>
      in
        if handled then refresh st2
        else if matches key_event ''ctrl+u''
          then refresh (st2\<lparr>line_edit := le_clear (line_edit st2)\<rparr>)
        else if matches key_event ''ctrl+a''
          then refresh (st2\<lparr>line_edit := home (line_edit st2)\<rparr>)
        else if matches key_event ''ctrl+e''
          then refresh (st2\<lparr>line_edit := le_end (line_edit st2)\<rparr>)
        else if matches key_event ''ctrl+backspace'' \<or> matches key_event ''ctrl+w''
          then delete_word True st2
        else if matches key_event ''ctrl+left'' \<or> matches key_event ''ctrl+b''
          then move_word_left True st2
        else if matches key_event ''ctrl+right'' \<or> matches key_event ''ctrl+f''
          then move_word_right True st2
        else if matches key_event ''alt+backspace'' \<or> matches key_event ''alt+w''
          then delete_word False st2
        else if matches key_event ''alt+left'' \<or> matches key_event ''alt+b''
          then move_word_left False st2
        else if matches key_event ''alt+right'' \<or> matches key_event ''alt+f''
          then move_word_right False st2
        else if matches key_event ''tab''
          then refresh (switch_mode st2)
        else if matches key_event ''up'' \<or> matches key_event ''f3''
          then navigate_to_match False st2
        else if matches key_event ''down'' \<or> matches key_event ''shift+f3''
          then navigate_to_match True st2
        else if matches key_event ''enter''
          then quit 0 st2
        else if matches key_event ''esc''
          then quit 1 st2
        else st2)"

section \<open>The counts the word motions pass to the line editor\<close>

definition left_count :: "bool \<Rightarrow> string \<Rightarrow> int" where
  \<comment> \<open>the count \<open>_delete_word\<close> and \<open>_move_word_left\<close> compute from the text before
      the cursor; the two functions share it line by line\<close>
  "left_count use_whitespace before =
     (let start = (case reindex before
                          (if use_whitespace then SPACE_PATTERN_END else NON_ALPHANUM_PATTERN_END)
                          True of
                     Inr (start, _) \<Rightarrow> int start
                   | Inl ValueError \<Rightarrow> - 1)
      in if use_whitespace
         then int (length before) -
              (case str_rindex (slice_to before start) (CHR '' '') of
                 Inr i \<Rightarrow> int i
               | Inl ValueError \<Rightarrow> 0)
         else if start \<noteq> - 1 then int (length before) - start
         else (case reindex before NON_ALPHANUM_PATTERN True of
                 Inr (start, _) \<Rightarrow> int (length before) - (int start + 1)
               | Inl ValueError \<Rightarrow> int (length before)))"

definition right_count :: "bool \<Rightarrow> string \<Rightarrow> int" where
  \<comment> \<open>the count \<open>_move_word_right\<close> computes from the text after the cursor\<close>
  "right_count use_whitespace after =
     (let end' = (case reindex after
                         (if use_whitespace then SPACE_PATTERN_START else NON_ALPHANUM_PATTERN_START)
                         False of
                    Inr (_, end') \<Rightarrow> int end'
                  | Inl ValueError \<Rightarrow> 0)
      in if use_whitespace
         then (case str_index (slice_from after end') (CHR '' '') of
                 Inr i \<Rightarrow> int i + 1
               | Inl ValueError \<Rightarrow> int (length after))
         else if end' > 0 then end'
         else (case reindex after NON_ALPHANUM_PATTERN False of
                 Inr (_, end') \<Rightarrow> int end' - 1
               | Inl ValueError \<Rightarrow> int (length after)))"

section \<open>Two concrete sessions\<close>

definition fresh_session :: search where
  \<comment> \<open>a session on window 1 with nothing persisted; the clock reads 0, 1, 2, ... seconds\<close>
  "fresh_session = init Map.empty [1] [] ''scroll-mark.py'' real"

definition restored_session :: "(nat \<Rightarrow> real) \<Rightarrow> search" where
  \<comment> \<open>a session on window 1 that restores the last search \<open>abc\<close>\<close>
  "restored_session clk = init [''last_search'' \<mapsto> ''abc''] [1] [] ''scroll-mark.py'' clk"

section \<open>Remote control calls and marking\<close>

lemma foldl_call_remote_control:
  "foldl (\<lambda>s a. call_remote_control (f a) s) st xs = st\<lparr>calls := calls st @ map f xs\<rparr>"
  by (induction xs arbitrary: st) (simp_all add: call_remote_control_def)

lemma match_args_calls [simp]: "match_args (st\<lparr>calls := cs\<rparr>) = match_args st"
  by (simp add: match_args_def)

lemma remove_mark_eq:
  "remove_mark st = st\<lparr>calls := calls st @ map (\<lambda>m. [''remove-marker'', m]) (match_args st)\<rparr>"
  unfolding remove_mark_def by (rule foldl_call_remote_control)

lemma mark_eq:
  "mark st =
     (if window_ids st = [] then st
      else if current_input (line_edit st) = last_mark_text st \<and>
              clock st (ticks st) - last_mark_time st < MARK_DEBOUNCE_INTERVAL
      then st\<lparr>ticks := Suc (ticks st)\<rparr>
      else st\<lparr>ticks := Suc (ticks st),
              last_mark_text := current_input (line_edit st),
              last_mark_time := clock st (ticks st),
              calls := calls st @
                (if current_input (line_edit st) \<noteq> []
                 then map (\<lambda>m. [''create-marker'', m,
                                   (if islower (current_input (line_edit st)) then ''i'' else []) @ mode st,
                                   ''1'', current_input (line_edit st)]) (match_args st)
                 else map (\<lambda>m. [''remove-marker'', m]) (match_args st))\<rparr>)"
  by (simp add: mark_def time_time_def Let_def foldl_call_remote_control remove_mark_eq match_args_def)

lemma mark_keeps [simp]:
  "line_edit (mark st) = line_edit st"
  "text_marked (mark st) = text_marked st"
  "window_ids (mark st) = window_ids st"
  "mode (mark st) = mode st"
  "cached_values (mark st) = cached_values st"
  "quit_code (mark st) = quit_code st"
  "clock (mark st) = clock st"
  by (simp_all add: mark_eq)

lemma refresh_eq: "refresh st = mark st"
  by (simp add: refresh_def draw_screen_def)

section \<open>What the word motions do to the line editor\<close>

lemma delete_word_line_edit:
  "line_edit (delete_word use_whitespace st) =
     backspace (left_count use_whitespace (fst (split_at_cursor (line_edit st)))) (line_edit st)"
  by (cases use_whitespace; cases "split_at_cursor (line_edit st)")
     (simp_all add: delete_word_def left_count_def refresh_eq Let_def)

lemma move_word_left_line_edit:
  "line_edit (move_word_left use_whitespace st) =
     le_left (left_count use_whitespace (fst (split_at_cursor (line_edit st)))) (line_edit st)"
  by (cases use_whitespace; cases "split_at_cursor (line_edit st)")
     (simp_all add: move_word_left_def left_count_def refresh_eq Let_def)

lemma move_word_right_line_edit:
  "line_edit (move_word_right use_whitespace st) =
     le_right (right_count use_whitespace (snd (split_at_cursor (line_edit st)))) (line_edit st)"
  by (cases use_whitespace; cases "split_at_cursor (line_edit st)")
     (simp_all add: move_word_right_def right_count_def refresh_eq Let_def)

lemmas pattern_defs = reindex_def finditer_def search_def search_from.simps finditer_from.simps SPACE_PATTERN_def SPACE_PATTERN_END_def
  SPACE_PATTERN_START_def NON_ALPHANUM_PATTERN_def NON_ALPHANUM_PATTERN_END_def
  NON_ALPHANUM_PATTERN_START_def run_len_def at_dollar_def is_space_def is_word_def ord_def

lemmas count_defs = left_count_def right_count_def str_index_def str_rindex_def
  slice_to_def slice_from_def

lemma left_count_foo_bar: "left_count False ''foo-bar'' = 3"
  by (simp add: count_defs pattern_defs)

lemma left_count_foo_dash: "left_count False ''foo-'' = 1"
  by (simp add: count_defs pattern_defs)

section \<open>Deleting the previous token\<close>

text \<open>
  C4. With the non-alphanumeric delimiter class and the cursor at the end of the text,
  deleting the previous unit turns \<open>foo-bar\<close> into \<open>foo-\<close> (the alphanumeric run
  \<open>bar\<close> goes, the punctuation stays) and \<open>foo-\<close> into \<open>foo\<close> (the punctuation run
  right before the cursor goes as one unit), whatever the rest of the session state is.
\<close>

theorem delete_word_alphanumeric_cases:
  "line_edit (delete_word False
       (st\<lparr>line_edit := \<lparr>current_input = ''foo-bar'', cursor_pos = 7\<rparr>\<rparr>))
     = \<lparr>current_input = ''foo-'', cursor_pos = 4\<rparr> \<and>
   line_edit (delete_word False
       (st\<lparr>line_edit := \<lparr>current_input = ''foo-'', cursor_pos = 4\<rparr>\<rparr>))
     = \<lparr>current_input = ''foo'', cursor_pos = 3\<rparr>"
  by (simp add: delete_word_line_edit split_at_cursor_def left_count_foo_bar
        left_count_foo_dash backspace_def)

section \<open>Deleting the previous word\<close>

lemma left_count_hello_world: "left_count True ''hello world'' = 6"
  by (simp add: count_defs pattern_defs)

lemma typed_line_edit:
  "line_edit (on_text s False (init Map.empty ws err sm clk)) =
     \<lparr>current_input = s, cursor_pos = length s\<rparr>"
  by (simp add: on_text_def refresh_eq init_def update_prompt_def add_text_def LineEdit_def
        split_at_cursor_def)

text \<open>
  C1, as the specification states it, fails: typing \<open>hello world\<close> into a fresh
  session and deleting the previous word (whitespace class) does not leave \<open>hello \<close>;
  the text left is \<open>hello\<close>.
\<close>

theorem delete_word_hello_world_counterexample:
  "current_input (line_edit (delete_word True
       (on_text ''hello world'' False (init Map.empty [1] [] ''scroll-mark.py'' real))))
     \<noteq> ''hello '' \<and>
   current_input (line_edit (delete_word True
       (on_text ''hello world'' False (init Map.empty [1] [] ''scroll-mark.py'' real))))
     = ''hello''"
  by (simp add: delete_word_line_edit typed_line_edit split_at_cursor_def
        left_count_hello_world backspace_def)

text \<open>
  C1, amended. On \<open>hello world\<close> with the cursor at the end, deleting the previous word
  with the whitespace class deletes from the last space before the word to the cursor,
  the space included: the text left is \<open>hello\<close> and the cursor stands at its end,
  whatever the rest of the session state is.
\<close>

theorem delete_word_hello_world:
  "line_edit (delete_word True
       (st\<lparr>line_edit := \<lparr>current_input = ''hello world'', cursor_pos = 11\<rparr>\<rparr>))
     = \<lparr>current_input = ''hello'', cursor_pos = 5\<rparr>"
  by (simp add: delete_word_line_edit split_at_cursor_def left_count_hello_world backspace_def)

section \<open>Moving right by one word\<close>

lemma search_from_none:
  "(\<And>i. p \<le> i \<Longrightarrow> i \<le> length tx \<Longrightarrow> match_at pat tx i = None) \<Longrightarrow> search_from pat tx p = None"
proof (induction pat tx p rule: search_from.induct)
  case (1 pat tx pos)
  show ?case
  proof (cases "length tx < pos")
    case True
    then show ?thesis
      by (subst search_from.simps) simp
  next
    case False
    with "1.prems" [of pos] have none: "match_at pat tx pos = None"
      by simp
    from "1.prems" have "search_from pat tx (Suc pos) = None"
      by (intro "1.IH" [OF False none]) simp_all
    with False none show ?thesis
      by (subst search_from.simps) simp
  qed
qed

lemma match_at_start:
  "match_at (Pattern cls AtStart) tx i =
     (if i = 0 \<and> 0 < run_len cls tx 0 then Some (run_len cls tx 0) else None)"
  by (cases "run_len cls tx 0") simp_all

lemma search_start:
  "search (Pattern cls AtStart) tx =
     (if 0 < run_len cls tx 0 then Some (0, run_len cls tx 0) else None)"
proof (cases "0 < run_len cls tx 0")
  case True
  then show ?thesis
    unfolding search_def by (subst search_from.simps) (simp add: match_at_start del: match_at.simps)
next
  case False
  then have "search_from (Pattern cls AtStart) tx 0 = None"
    by (intro search_from_none) (simp add: match_at_start del: match_at.simps)
  with False show ?thesis
    by (simp add: search_def)
qed

lemma right_count_whitespace:
  "right_count True after =
     (case str_index (drop (run_len Space after 0) after) (CHR '' '') of
        Inr i \<Rightarrow> int i + 1
      | Inl ValueError \<Rightarrow> int (length after))"
  by (simp add: right_count_def reindex_def SPACE_PATTERN_START_def search_start slice_from_def)

text \<open>
  C3. With the whitespace class the cursor moves right, within the text, by one more
  than the index of the first space in what follows the leading whitespace run of the
  text after the cursor, and to the end of the text when there is no such space. That
  index is relative to the text after the run, and the length of the run is not added
  to it. At a failing input: after the cursor stands \<open>  foo bar\<close>, the run has length
  2 and the first space of the rest is at relative index 3, so just past that space is 6
  positions to the right; the cursor moves 4 positions, into the middle of \<open>foo\<close>.
\<close>

theorem move_word_right_skips_offset:
  "cursor_pos (line_edit (move_word_right True st)) =
     (let after = snd (split_at_cursor (line_edit st)) in
      min (length (current_input (line_edit st)))
          (cursor_pos (line_edit st) +
           (case str_index (drop (run_len Space after 0) after) (CHR '' '') of
              Inr i \<Rightarrow> i + 1
            | Inl ValueError \<Rightarrow> length after))) \<and>
   run_len Space ''  foo bar'' 0 = 2 \<and>
   str_index (drop 2 ''  foo bar'') (CHR '' '') = Inr 3 \<and>
   cursor_pos (line_edit (move_word_right True
       (st\<lparr>line_edit := \<lparr>current_input = ''  foo bar'', cursor_pos = 0\<rparr>\<rparr>))) = 4"
proof -
  have general: "cursor_pos (line_edit (move_word_right True st')) =
     (let after = snd (split_at_cursor (line_edit st')) in
      min (length (current_input (line_edit st')))
          (cursor_pos (line_edit st') +
           (case str_index (drop (run_len Space after 0) after) (CHR '' '') of
              Inr i \<Rightarrow> i + 1
            | Inl ValueError \<Rightarrow> length after)))" for st'
    by (simp add: move_word_right_line_edit right_count_whitespace le_right_def Let_def
          nat_add_distrib split: sum.splits py_error.splits)
  have run: "run_len Space ''  foo bar'' 0 = 2"
    by (simp add: run_len_def is_space_def ord_def)
  have idx: "str_index (drop 2 ''  foo bar'') (CHR '' '') = Inr 3"
    by (simp add: str_index_def)
  have "cursor_pos (line_edit (move_word_right True
       (st\<lparr>line_edit := \<lparr>current_input = ''  foo bar'', cursor_pos = 0\<rparr>\<rparr>))) = 4"
    using idx by (simp add: general split_at_cursor_def run)
  with general [of st] run idx show ?thesis
    by blast
qed

section \<open>The concrete sessions, evaluated\<close>

lemma str_int_1: "str_int 1 = ''1''"
  by (simp add: str_int_def)

lemma fresh_session_eq:
  "fresh_session =
     \<lparr>cached_values = Map.empty, window_ids = [1], error = [],
      line_edit = \<lparr>current_input = [], cursor_pos = 0\<rparr>, text_marked = False,
      mode = ''text'', prompt = ''=> '', last_mark_text = [], last_mark_time = 0,
      calls = [], quit_code = None, clock = real, ticks = 1,
      scrollmark_file = ''scroll-mark.py''\<rparr>"
  by (simp add: fresh_session_def init_def mark_eq update_prompt_def add_text_def LineEdit_def
        split_at_cursor_def MARK_DEBOUNCE_INTERVAL_def)

lemma restored_session_eq:
  "restored_session clk =
     \<lparr>cached_values = [''last_search'' \<mapsto> ''abc''], window_ids = [1], error = [],
      line_edit = \<lparr>current_input = ''abc'', cursor_pos = 3\<rparr>, text_marked = True,
      mode = ''text'', prompt = ''=> '', last_mark_text = ''abc'', last_mark_time = clk 0,
      calls = [[''create-marker'', ''--match=id:1'', ''itext'', ''1'', ''abc'']],
      quit_code = None, clock = clk, ticks = 1,
      scrollmark_file = ''scroll-mark.py''\<rparr>"
  by (simp add: restored_session_def init_def mark_eq update_prompt_def add_text_def LineEdit_def
        split_at_cursor_def match_args_def str_int_1 islower_def is_upper_def is_lower_def ord_def
        Let_def)

section \<open>Leaving the session\<close>

lemma quit_eq:
  "quit rc st =
     st\<lparr>cached_values := (cached_values st)(''last_search'' \<mapsto> current_input (line_edit st)),
        calls := calls st @ map (\<lambda>m. [''remove-marker'', m]) (match_args st) @
                 (if rc \<noteq> 0 then map (\<lambda>m. [''scroll-window'', m, ''end'']) (match_args st) else []),
        quit_code := Some rc\<rparr>"
  by (simp add: quit_def Let_def remove_mark_eq foldl_call_remote_control quit_loop_def match_args_def)

text \<open>
  C8. Leaving with any return code stores the current input as \<open>last_search\<close> and
  leaves the loop with that code. Commit (\<open>quit 0\<close>) runs one \<open>remove-marker\<close> per
  target window and nothing else, so it adds no \<open>scroll-window\<close> command to the ones
  run before. Cancel (\<open>quit 1\<close>) runs the same \<open>remove-marker\<close> commands and then one
  \<open>scroll-window ... end\<close> per target window. Interrupt and end of input are cancel.
\<close>

theorem quit_effects:
  "cached_values (quit rc st) ''last_search'' = Some (current_input (line_edit st)) \<and>
   quit_code (quit rc st) = Some rc \<and>
   calls (quit 0 st) =
     calls st @ map (\<lambda>w. [''remove-marker'', ''--match=id:'' @ str_int w]) (window_ids st) \<and>
   calls (quit 1 st) =
     calls st @ map (\<lambda>w. [''remove-marker'', ''--match=id:'' @ str_int w]) (window_ids st) @
       map (\<lambda>w. [''scroll-window'', ''--match=id:'' @ str_int w, ''end'']) (window_ids st) \<and>
   filter (\<lambda>c. hd c = ''scroll-window'') (calls (quit 0 st)) =
     filter (\<lambda>c. hd c = ''scroll-window'') (calls st) \<and>
   on_interrupt st = quit 1 st \<and> on_eot st = quit 1 st"
  by (simp add: quit_eq match_args_def on_interrupt_def on_eot_def comp_def)

section \<open>Starting the session\<close>

text \<open>
  C10. The handler is built with \<open>text_marked\<close> set exactly when a non-empty last
  search was restored. When one was, the commands run by the time the constructor returns
  are one \<open>create-marker\<close> per target window, for the restored term, with \<open>i\<close> before
  the mode name exactly when the term is lowercase in the sense of \<open>str.islower\<close>; with
  no target window that is no command at all. When none was restored, no marker is
  created.
\<close>

theorem init_marks_restored_term:
  "text_marked (init cached ws err sm clk) =
     (case cached ''last_search'' of None \<Rightarrow> False | Some v \<Rightarrow> v \<noteq> []) \<and>
   calls (init cached ws err sm clk) =
     (case cached ''last_search'' of
        None \<Rightarrow> (if clk 0 < MARK_DEBOUNCE_INTERVAL then []
                  else map (\<lambda>w. [''remove-marker'', ''--match=id:'' @ str_int w]) ws)
      | Some v \<Rightarrow>
          if v \<noteq> []
          then map (\<lambda>w. [''create-marker'', ''--match=id:'' @ str_int w,
                           (if islower v then ''i'' else []) @
                           (case cached ''mode'' of None \<Rightarrow> ''text'' | Some m \<Rightarrow> m),
                           ''1'', v]) ws
          else if clk 0 < MARK_DEBOUNCE_INTERVAL then []
          else map (\<lambda>w. [''remove-marker'', ''--match=id:'' @ str_int w]) ws)"
  by (simp add: init_def mark_eq update_prompt_def add_text_def LineEdit_def split_at_cursor_def
        match_args_def Let_def split: option.splits)

section \<open>The match type of a marker\<close>

text \<open>
  C6, as the specification states it, fails: the query \<open>123\<close> contains no uppercase
  character, and the marker created for it in text mode has the match type \<open>text\<close>,
  without the case-insensitivity flag.
\<close>

theorem match_type_digits_counterexample:
  "list_all (\<lambda>c. \<not> is_upper c) ''123'' \<and>
   calls (on_text ''123'' False fresh_session) =
     [[''create-marker'', ''--match=id:1'', ''text'', ''1'', ''123'']]"
  by (simp add: on_text_def refresh_eq mark_eq fresh_session_eq add_text_def
        split_at_cursor_def match_args_def str_int_1 MARK_DEBOUNCE_INTERVAL_def
        islower_def is_upper_def is_lower_def ord_def)

text \<open>
  C6, amended. For every non-empty query that is marked (there is a target window and
  the request is not debounced), each marker is created with the match type \<open>i\<close>
  followed by the mode name exactly when the query contains no uppercase character and
  at least one lowercase character, and with the bare mode name otherwise.
\<close>

theorem mark_match_type:
  assumes "window_ids st \<noteq> []"
    and "current_input (line_edit st) \<noteq> []"
    and "\<not> (current_input (line_edit st) = last_mark_text st \<and>
            clock st (ticks st) - last_mark_time st < MARK_DEBOUNCE_INTERVAL)"
  shows "calls (mark st) = calls st @
           map (\<lambda>w. [''create-marker'', ''--match=id:'' @ str_int w,
                      (if (\<forall>c \<in> set (current_input (line_edit st)). \<not> is_upper c) \<and>
                          (\<exists>c \<in> set (current_input (line_edit st)). is_lower c)
                       then ''i'' else []) @ mode st,
                      ''1'', current_input (line_edit st)])
               (window_ids st)"
  using assms by (auto simp: mark_eq match_args_def islower_def list_all_iff list_ex_iff)

theorem mark_match_type_witness:
  "calls (mark (fresh_session\<lparr>line_edit := \<lparr>current_input = ''abc'', cursor_pos = 3\<rparr>\<rparr>)) =
     [[''create-marker'', ''--match=id:1'', ''itext'', ''1'', ''abc'']] \<and>
   calls (mark (fresh_session\<lparr>line_edit := \<lparr>current_input = ''Abc'', cursor_pos = 3\<rparr>\<rparr>)) =
     [[''create-marker'', ''--match=id:1'', ''text'', ''1'', ''Abc'']]"
proof -
  let ?lower = "fresh_session\<lparr>line_edit := \<lparr>current_input = ''abc'', cursor_pos = 3\<rparr>\<rparr>"
  let ?mixed = "fresh_session\<lparr>line_edit := \<lparr>current_input = ''Abc'', cursor_pos = 3\<rparr>\<rparr>"
  have lower: "window_ids ?lower \<noteq> []" "current_input (line_edit ?lower) \<noteq> []"
    "\<not> (current_input (line_edit ?lower) = last_mark_text ?lower \<and>
        clock ?lower (ticks ?lower) - last_mark_time ?lower < MARK_DEBOUNCE_INTERVAL)"
    by (simp_all add: fresh_session_eq)
  have mixed: "window_ids ?mixed \<noteq> []" "current_input (line_edit ?mixed) \<noteq> []"
    "\<not> (current_input (line_edit ?mixed) = last_mark_text ?mixed \<and>
        clock ?mixed (ticks ?mixed) - last_mark_time ?mixed < MARK_DEBOUNCE_INTERVAL)"
    by (simp_all add: fresh_session_eq)
  from mark_match_type [OF lower] mark_match_type [OF mixed]
  show ?thesis
    by (simp add: fresh_session_eq str_int_1 is_upper_def is_lower_def ord_def)
qed

section \<open>Debouncing\<close>

text \<open>
  C7, as the specification states it, fails. A session restores \<open>abc\<close> and marks it at
  100 s; two resize notifications then ask for a mark of the same text. With the
  requests at 100.03 s and 100.06 s, 30 ms apart, the first is skipped and the second
  creates a marker. With the requests at 100.03 s and 100.09 s, 60 ms apart, the two
  create one marker between them, not two. The interval is counted from the last request
  that was not skipped, not from the request before.
\<close>

theorem debounce_after_skipped_request_counterexample:
  "current_input (line_edit (on_resize (restored_session (\<lambda>n. 100 + 0.03 * real n)))) =
     current_input (line_edit (on_resize (on_resize (restored_session (\<lambda>n. 100 + 0.03 * real n))))) \<and>
   (100 + 0.03 * real 2) - (100 + 0.03 * real 1) < MARK_DEBOUNCE_INTERVAL \<and>
   calls (on_resize (restored_session (\<lambda>n. 100 + 0.03 * real n))) =
     calls (restored_session (\<lambda>n. 100 + 0.03 * real n)) \<and>
   calls (on_resize (on_resize (restored_session (\<lambda>n. 100 + 0.03 * real n)))) =
     calls (on_resize (restored_session (\<lambda>n. 100 + 0.03 * real n))) @
       [[''create-marker'', ''--match=id:1'', ''itext'', ''1'', ''abc'']] \<and>
   \<not> (100 + 0.03 * real 3) - (100 + 0.03 * real 1) < MARK_DEBOUNCE_INTERVAL \<and>
   calls (on_resize (on_resize (restored_session (\<lambda>n. 100 + 0.03 * real (if n = 2 then 3 else n))))) =
     calls (restored_session (\<lambda>n. 100 + 0.03 * real (if n = 2 then 3 else n))) @
       [[''create-marker'', ''--match=id:1'', ''itext'', ''1'', ''abc'']]"
  by (simp add: on_resize_def refresh_eq restored_session_eq mark_eq MARK_DEBOUNCE_INTERVAL_def
        match_args_def str_int_1 islower_def is_upper_def is_lower_def ord_def)

text \<open>
  C7, amended. Take a mark request that is not skipped (its text differs from the last
  marked text, or at least 50 ms have passed since the last request that was not
  skipped), with a non-empty text and at least one target window. It runs one
  \<open>create-marker\<close> per target window. A second request with the same text runs no
  command when the clock has advanced by less than 50 ms between the two, and one more
  \<open>create-marker\<close> per target window otherwise. In particular a request whose text
  has changed is never skipped.
\<close>

theorem mark_debounce:
  assumes ws: "window_ids st \<noteq> []"
    and tx: "current_input (line_edit st) \<noteq> []"
    and first: "current_input (line_edit st) \<noteq> last_mark_text st \<or>
                \<not> clock st (ticks st) - last_mark_time st < MARK_DEBOUNCE_INTERVAL"
  shows "calls (mark st) = calls st @
           map (\<lambda>w. [''create-marker'', ''--match=id:'' @ str_int w,
                      (if islower (current_input (line_edit st)) then ''i'' else []) @ mode st,
                      ''1'', current_input (line_edit st)]) (window_ids st) \<and>
         calls (mark (mark st)) =
           (if clock st (Suc (ticks st)) - clock st (ticks st) < MARK_DEBOUNCE_INTERVAL
            then calls (mark st)
            else calls (mark st) @
              map (\<lambda>w. [''create-marker'', ''--match=id:'' @ str_int w,
                      (if islower (current_input (line_edit st)) then ''i'' else []) @ mode st,
                      ''1'', current_input (line_edit st)]) (window_ids st))"
proof -
  define st1 where "st1 = mark st"
  define creates where "creates =
     map (\<lambda>w. [''create-marker'', ''--match=id:'' @ str_int w,
                (if islower (current_input (line_edit st)) then ''i'' else []) @ mode st,
                ''1'', current_input (line_edit st)]) (window_ids st)"
  have st1: "st1 = st\<lparr>ticks := Suc (ticks st),
              last_mark_text := current_input (line_edit st),
              last_mark_time := clock st (ticks st),
              calls := calls st @ creates\<rparr>"
    unfolding st1_def creates_def using ws tx first
    by (subst mark_eq) (auto simp: match_args_def)
  have first_calls: "calls st1 = calls st @ creates"
    by (simp add: st1)
  have second: "calls (mark st1) =
           (if clock st (Suc (ticks st)) - clock st (ticks st) < MARK_DEBOUNCE_INTERVAL
            then calls st1 else calls st1 @ creates)"
    using ws tx unfolding creates_def
    by (subst mark_eq) (simp add: st1 match_args_def)
  from first_calls second show ?thesis
    unfolding st1_def creates_def by blast
qed

theorem mark_debounce_witness:
  "calls (mark (mark (fresh_session\<lparr>line_edit := \<lparr>current_input = ''abc'', cursor_pos = 3\<rparr>\<rparr>))) =
     [[''create-marker'', ''--match=id:1'', ''itext'', ''1'', ''abc''],
      [''create-marker'', ''--match=id:1'', ''itext'', ''1'', ''abc'']] \<and>
   calls (mark (mark (fresh_session\<lparr>line_edit := \<lparr>current_input = ''abc'', cursor_pos = 3\<rparr>,
                                   clock := \<lambda>n. 100 + 0.01 * real n\<rparr>))) =
     [[''create-marker'', ''--match=id:1'', ''itext'', ''1'', ''abc'']]"
proof -
  let ?slow = "fresh_session\<lparr>line_edit := \<lparr>current_input = ''abc'', cursor_pos = 3\<rparr>\<rparr>"
  let ?fast = "fresh_session\<lparr>line_edit := \<lparr>current_input = ''abc'', cursor_pos = 3\<rparr>,
                             clock := \<lambda>n. 100 + 0.01 * real n\<rparr>"
  have slow: "window_ids ?slow \<noteq> []" "current_input (line_edit ?slow) \<noteq> []"
    "current_input (line_edit ?slow) \<noteq> last_mark_text ?slow \<or>
       \<not> clock ?slow (ticks ?slow) - last_mark_time ?slow < MARK_DEBOUNCE_INTERVAL"
    by (simp_all add: fresh_session_eq)
  have fast: "window_ids ?fast \<noteq> []" "current_input (line_edit ?fast) \<noteq> []"
    "current_input (line_edit ?fast) \<noteq> last_mark_text ?fast \<or>
       \<not> clock ?fast (ticks ?fast) - last_mark_time ?fast < MARK_DEBOUNCE_INTERVAL"
    by (simp_all add: fresh_session_eq)
  from mark_debounce [OF slow] mark_debounce [OF fast]
  show ?thesis
    by (simp add: fresh_session_eq str_int_1 islower_def is_upper_def is_lower_def ord_def
          MARK_DEBOUNCE_INTERVAL_def)
qed

section \<open>Clearing the mark on a key press\<close>

lemma text_marked_calls_fold [simp]:
  "text_marked (foldl (\<lambda>s a. call_remote_control (f s a) s) st xs) = text_marked st"
  by (induction xs arbitrary: st) (simp_all add: call_remote_control_def)

lemma text_marked_keeps [simp]:
  "text_marked (refresh st) = text_marked st"
  "text_marked (delete_word b st) = text_marked st"
  "text_marked (move_word_left b st) = text_marked st"
  "text_marked (move_word_right b st) = text_marked st"
  "text_marked (switch_mode st) = text_marked st"
  "text_marked (navigate_to_match b st) = text_marked st"
  "text_marked (quit rc st) = text_marked st"
  by (simp_all add: refresh_eq delete_word_def move_word_left_def move_word_right_def
        switch_mode_def update_prompt_def navigate_to_match_def quit_def quit_loop_def
        remove_mark_eq foldl_call_remote_control Let_def split: prod.splits)

lemma on_key_text_marked:
  "text_marked (on_key f ev st) = (text_marked st \<and> \<not> should_clear_mark st ev)"
proof (cases "should_clear_mark st ev")
  case True
  obtain h le where f: "f ev (line_edit (refresh (st\<lparr>text_marked := False\<rparr>))) = (h, le)"
    by (cases "f ev (line_edit (refresh (st\<lparr>text_marked := False\<rparr>)))")
  show ?thesis
    using True f by (simp add: on_key_def Let_def)
next
  case False
  obtain h le where f: "f ev (line_edit st) = (h, le)"
    by (cases "f ev (line_edit st)")
  show ?thesis
    using False f by (simp add: on_key_def Let_def)
qed

text \<open>
  C5, as the specification states it, fails: Tab is not a modifier key, and a press of
  Tab in a session that has just restored \<open>abc\<close> (the line editor leaves the key to the
  handler, which toggles the mode) leaves \<open>text_marked\<close> set.
\<close>

theorem tab_keeps_mark_counterexample:
  "text_marked (restored_session real) \<and>
   text_marked
     (on_key (\<lambda>ev le. (False, le))
        \<lparr>ev_type = PRESS, key = ''TAB'', matches = (\<lambda>s. s = ''tab'')\<rparr>
        (restored_session real))"
  by (simp add: on_key_text_marked should_clear_mark_def restored_session_eq)

text \<open>
  C5, amended. A key press whose key is none of TAB, LEFT_CONTROL, RIGHT_CONTROL,
  LEFT_ALT, RIGHT_ALT, LEFT_SHIFT, RIGHT_SHIFT, LEFT_SUPER and RIGHT_SUPER leaves
  \<open>text_marked\<close> false, whatever the key otherwise does and whatever the line editor
  does with it. An event for one of these nine keys leaves the flag as it was.
\<close>

theorem on_key_clears_mark:
  "(ev_type ev = PRESS \<and>
    key ev \<notin> {''TAB'', ''LEFT_CONTROL'', ''RIGHT_CONTROL'', ''LEFT_ALT'', ''RIGHT_ALT'',
               ''LEFT_SHIFT'', ''RIGHT_SHIFT'', ''LEFT_SUPER'', ''RIGHT_SUPER''}
      \<longrightarrow> \<not> text_marked (on_key f ev st)) \<and>
   (key ev \<in> {''TAB'', ''LEFT_CONTROL'', ''RIGHT_CONTROL'', ''LEFT_ALT'', ''RIGHT_ALT'',
               ''LEFT_SHIFT'', ''RIGHT_SHIFT'', ''LEFT_SUPER'', ''RIGHT_SUPER''}
      \<longrightarrow> text_marked (on_key f ev st) = text_marked st)"
  by (simp add: on_key_text_marked should_clear_mark_def)

theorem on_key_clears_mark_witness:
  "text_marked (restored_session real) \<and>
   \<not> text_marked
       (on_key (\<lambda>ev le. (False, le))
          \<lparr>ev_type = PRESS, key = ''F5'', matches = (\<lambda>s. False)\<rparr>
          (restored_session real)) \<and>
   text_marked
     (on_key (\<lambda>ev le. (False, le))
        \<lparr>ev_type = PRESS, key = ''LEFT_SHIFT'', matches = (\<lambda>s. False)\<rparr>
        (restored_session real))"
proof -
  let ?f5 = "\<lparr>ev_type = PRESS, key = ''F5'', matches = (\<lambda>s. False)\<rparr>"
  let ?shift = "\<lparr>ev_type = PRESS, key = ''LEFT_SHIFT'', matches = (\<lambda>s. False)\<rparr>"
  have marked: "text_marked (restored_session real)"
    by (simp add: restored_session_eq)
  have f5: "ev_type ?f5 = PRESS \<and>
    key ?f5 \<notin> {''TAB'', ''LEFT_CONTROL'', ''RIGHT_CONTROL'', ''LEFT_ALT'', ''RIGHT_ALT'',
               ''LEFT_SHIFT'', ''RIGHT_SHIFT'', ''LEFT_SUPER'', ''RIGHT_SUPER''}"
    by simp
  have shift: "key ?shift \<in> {''TAB'', ''LEFT_CONTROL'', ''RIGHT_CONTROL'', ''LEFT_ALT'',
               ''RIGHT_ALT'', ''LEFT_SHIFT'', ''RIGHT_SHIFT'', ''LEFT_SUPER'', ''RIGHT_SUPER''}"
    by simp
  from on_key_clears_mark [of ?f5 "\<lambda>ev le. (False, le)" "restored_session real"] f5
  have cleared: "\<not> text_marked (on_key (\<lambda>ev le. (False, le)) ?f5 (restored_session real))"
    by blast
  from on_key_clears_mark [of ?shift "\<lambda>ev le. (False, le)" "restored_session real"] shift
  have kept: "text_marked (on_key (\<lambda>ev le. (False, le)) ?shift (restored_session real)) =
              text_marked (restored_session real)"
    by blast
  from marked cleared kept show ?thesis
    by blast
qed

section \<open>Finding the span of a pattern\<close>

lemma run_len_bound: "i \<le> length tx \<Longrightarrow> i + run_len cls tx i \<le> length tx"
  using length_takeWhile_le [of "in_class cls" "drop i tx"] by (simp add: run_len_def)

lemma run_len_class:
  assumes "i \<le> j" and "j < i + run_len cls tx i"
  shows "in_class cls (tx ! j)"
proof -
  let ?run = "takeWhile (in_class cls) (drop i tx)"
  from assms have k: "j - i < length ?run"
    by (simp add: run_len_def)
  then have "?run ! (j - i) \<in> set ?run"
    by (rule nth_mem)
  then have "in_class cls (?run ! (j - i))"
    by (auto dest: set_takeWhileD)
  moreover have "?run ! (j - i) = drop i tx ! (j - i)"
    using k by (rule takeWhile_nth)
  moreover have "j < length tx"
    using k length_takeWhile_le [of "in_class cls" "drop i tx"] assms(1) by simp
  ultimately show ?thesis
    using assms(1) by simp
qed

lemma match_at_span:
  assumes "match_at (Pattern cls a) tx i = Some e"
  shows "i < e \<and> e \<le> i + run_len cls tx i \<and> start_ok a i \<and> end_ok a tx e"
proof -
  define ends where "ends = rev [Suc i ..< Suc (i + run_len cls tx i)]"
  from assms have ok: "start_ok a i" and f: "find (end_ok a tx) ends = Some e"
    by (simp_all add: ends_def split: if_splits)
  from f obtain k where "k < length ends" and "e = ends ! k" and "end_ok a tx (ends ! k)"
    unfolding find_Some_iff by blast
  then have "e \<in> set ends" and "end_ok a tx e"
    by simp_all
  with ok show ?thesis
    by (auto simp: ends_def)
qed

lemma search_from_span:
  "search_from pat tx p = Some (a, b) \<Longrightarrow> p \<le> a \<and> a \<le> length tx \<and> match_at pat tx a = Some b"
proof (induction pat tx p rule: search_from.induct)
  case (1 pat tx pos)
  show ?case
  proof (cases "match_at pat tx pos")
    case None
    with "1.prems" have "\<not> length tx < pos" and "search_from pat tx (Suc pos) = Some (a, b)"
      by (subst (asm) search_from.simps; simp split: if_splits)+
    with "1.IH" None show ?thesis
      by fastforce
  next
    case (Some e)
    with "1.prems" show ?thesis
      by (subst (asm) search_from.simps) (simp split: if_splits)
  qed
qed

lemma finditer_from_spans:
  "(a, b) \<in> set (finditer_from pat tx p) \<Longrightarrow> p \<le> a \<and> a \<le> length tx \<and> match_at pat tx a = Some b"
proof (induction pat tx p rule: finditer_from.induct)
  case (1 pat tx pos)
  show ?case
  proof (cases "search_from pat tx pos")
    case None
    with "1.prems" show ?thesis
      by (subst (asm) finditer_from.simps) simp
  next
    case (Some m)
    obtain s e where m: "m = (s, e)"
      by (cases m)
    from Some m have found: "search_from pat tx pos = Some (s, e)"
      by simp
    from search_from_span [OF found] have se: "pos \<le> s" "s \<le> length tx" "match_at pat tx s = Some e"
      by simp_all
    obtain cls an where pat: "pat = Pattern cls an"
      by (cases pat)
    from se(3) pat match_at_span have "s < e"
      by blast
    from "1.prems" found have "(a, b) = (s, e) \<or> (a, b) \<in> set (finditer_from pat tx e)"
      by (subst (asm) finditer_from.simps) simp
    then show ?thesis
    proof
      assume "(a, b) = (s, e)"
      with se show ?thesis
        by simp
    next
      assume "(a, b) \<in> set (finditer_from pat tx e)"
      from "1.IH" [OF found refl this] \<open>s < e\<close> se(1) show ?thesis
        by simp
    qed
  qed
qed

lemma finditer_hd:
  "finditer pat tx = (case search pat tx of None \<Rightarrow> [] | Some m \<Rightarrow> m # finditer_from pat tx (snd m))"
  unfolding finditer_def search_def
  by (subst finditer_from.simps) (simp split: option.splits prod.splits)

lemma reindex_first:
  "reindex tx pat False =
     (if finditer pat tx = [] then Inl ValueError else Inr (hd (finditer pat tx)))"
  by (simp add: reindex_def finditer_hd split: option.splits)

lemma reindex_last:
  "reindex tx pat True =
     (if finditer pat tx = [] then Inl ValueError else Inr (last (finditer pat tx)))"
  by (simp add: reindex_def Let_def)

lemma reindex_in_finditer:
  assumes "reindex tx pat r = Inr m"
  shows "m \<in> set (finditer pat tx)"
proof (cases r)
  case True
  with assms show ?thesis
    by (auto simp: reindex_last split: if_splits)
next
  case False
  with assms show ?thesis
    by (auto simp: reindex_first split: if_splits)
qed

lemma reindex_span:
  assumes "reindex tx (Pattern cls a) r = Inr (s, e)"
  shows "s < e \<and> e \<le> length tx \<and> (\<forall>i. s \<le> i \<and> i < e \<longrightarrow> in_class cls (tx ! i))"
proof -
  from assms have "(s, e) \<in> set (finditer (Pattern cls a) tx)"
    by (rule reindex_in_finditer)
  then have "s \<le> length tx" and m: "match_at (Pattern cls a) tx s = Some e"
    unfolding finditer_def by (blast dest: finditer_from_spans)+
  from match_at_span [OF m] have "s < e" and le: "e \<le> s + run_len cls tx s"
    by simp_all
  moreover from le run_len_bound [OF \<open>s \<le> length tx\<close>, of cls] have "e \<le> length tx"
    by simp
  moreover have "in_class cls (tx ! i)" if "s \<le> i" "i < e" for i
    using that le by (intro run_len_class [of s i]) simp_all
  ultimately show ?thesis
    by blast
qed

lemma finditer_from_sorted:
  "sorted_wrt (\<lambda>m n. snd m \<le> fst n) (finditer_from pat tx p)"
proof (induction pat tx p rule: finditer_from.induct)
  case (1 pat tx pos)
  show ?case
  proof (cases "search_from pat tx pos")
    case None
    then show ?thesis
      by (subst finditer_from.simps) simp
  next
    case (Some m)
    obtain s e where m: "m = (s, e)"
      by (cases m)
    from Some m have found: "search_from pat tx pos = Some (s, e)"
      by simp
    have "e \<le> fst n" if "n \<in> set (finditer_from pat tx e)" for n
      using that finditer_from_spans [of "fst n" "snd n" pat tx e] by simp
    with "1.IH" [OF found refl] found show ?thesis
      by (subst finditer_from.simps) simp
  qed
qed

lemma finditer_spaces: "finditer SPACE_PATTERN ''a  b c '' = [(1, 3), (4, 5), (6, 7)]"
  by (simp add: pattern_defs)

text \<open>
  C9. For every text and each of the six patterns, \<open>reindex\<close> searching from the left
  returns the first of the matches \<open>finditer\<close> enumerates and searching from the right
  the last of them; the enumeration runs left to right, each match starting at or after
  the end of the one before. \<open>reindex\<close> raises exactly when there is no match. A span
  it returns is half-open, non-empty and inside the text, and covers characters of the
  pattern's class only.
\<close>

theorem reindex_first_last:
  "reindex tx pat False =
     (if finditer pat tx = [] then Inl ValueError else Inr (hd (finditer pat tx))) \<and>
   reindex tx pat True =
     (if finditer pat tx = [] then Inl ValueError else Inr (last (finditer pat tx))) \<and>
   sorted_wrt (\<lambda>m n. snd m \<le> fst n) (finditer pat tx) \<and>
   ((\<exists>e. reindex tx pat r = Inl e) = (finditer pat tx = [])) \<and>
   (\<forall>s e. reindex tx (Pattern cls a) r = Inr (s, e) \<longrightarrow>
      s < e \<and> e \<le> length tx \<and> (\<forall>i. s \<le> i \<and> i < e \<longrightarrow> in_class cls (tx ! i)))"
proof -
  have fails: "(\<exists>e. reindex tx pat r = Inl e) = (finditer pat tx = [])"
    using reindex_first [of tx pat] reindex_last [of tx pat] by (cases r) auto
  have ordered: "sorted_wrt (\<lambda>m n. snd m \<le> fst n) (finditer pat tx)"
    unfolding finditer_def by (rule finditer_from_sorted)
  from reindex_first [of tx pat] reindex_last [of tx pat] ordered fails reindex_span [of tx cls a r]
  show ?thesis
    by blast
qed

theorem reindex_first_last_witness:
  "reindex ''a  b c '' SPACE_PATTERN False = Inr (1, 3) \<and>
   reindex ''a  b c '' SPACE_PATTERN True = Inr (6, 7) \<and>
   (6::nat) < 7 \<and> 7 \<le> length ''a  b c '' \<and> in_class Space (''a  b c '' ! 6) \<and>
   reindex ''abc'' SPACE_PATTERN True = Inl ValueError"
proof -
  have none: "finditer SPACE_PATTERN ''abc'' = []"
    by (simp add: pattern_defs)
  from reindex_first_last [of "''a  b c ''" SPACE_PATTERN True Space Unanchored]
  have first: "reindex ''a  b c '' SPACE_PATTERN False = Inr (1, 3)"
    and last: "reindex ''a  b c '' SPACE_PATTERN True = Inr (6, 7)"
    and span: "\<And>s e. reindex ''a  b c '' (Pattern Space Unanchored) True = Inr (s, e) \<Longrightarrow>
      s < e \<and> e \<le> length ''a  b c '' \<and> (\<forall>i. s \<le> i \<and> i < e \<longrightarrow> in_class Space (''a  b c '' ! i))"
    by (simp_all add: finditer_spaces)
  from last have "reindex ''a  b c '' (Pattern Space Unanchored) True = Inr (6, 7)"
    by (simp add: SPACE_PATTERN_def)
  from span [OF this] have in_text: "(6::nat) < 7 \<and> 7 \<le> length ''a  b c ''"
    and in_cls: "in_class Space (''a  b c '' ! 6)"
    by blast+
  from reindex_first_last [of "''abc''" SPACE_PATTERN True Space Unanchored] none
  have "reindex ''abc'' SPACE_PATTERN True = Inl ValueError"
    by simp
  with first last in_text in_cls show ?thesis
    by blast
qed

section \<open>Moving left, then right\<close>

lemma str_index_bound: "str_index s d = Inr i \<Longrightarrow> i < length s"
proof -
  assume a: "str_index s d = Inr i"
  then have "find (\<lambda>i. s ! i = d) [0 ..< length s] = Some i"
    by (simp add: str_index_def split: option.splits)
  then obtain k where "k < length [0 ..< length s]" and "i = [0 ..< length s] ! k"
    unfolding find_Some_iff by blast
  then show ?thesis
    by simp
qed

lemma str_rindex_bound: "str_rindex s d = Inr i \<Longrightarrow> i < length s"
proof -
  assume a: "str_rindex s d = Inr i"
  then have "find (\<lambda>i. s ! i = d) (rev [0 ..< length s]) = Some i"
    by (simp add: str_rindex_def split: option.splits)
  then obtain k where "k < length (rev [0 ..< length s])" and "i = rev [0 ..< length s] ! k"
    unfolding find_Some_iff by blast
  then have "i \<in> set (rev [0 ..< length s])"
    by (metis nth_mem)
  then show ?thesis
    by simp
qed

lemma length_slice_to: "length (slice_to s k) \<le> length s"
  by (auto simp: slice_to_def)

lemma length_slice_from: "length (slice_from s k) \<le> length s"
  by (auto simp: slice_from_def)

lemma reindex_bounds:
  assumes "reindex tx pat r = Inr (s, e)"
  shows "s < e \<and> e \<le> length tx"
proof -
  obtain cls a where "pat = Pattern cls a"
    by (cases pat)
  with assms reindex_span [of tx cls a r s e] show ?thesis
    by simp
qed

lemma left_count_bounds: "0 \<le> left_count uw before \<and> left_count uw before \<le> int (length before)"
proof (cases uw)
  case True
  define start where "start = (case reindex before SPACE_PATTERN_END True of
                     Inr (start, _) \<Rightarrow> int start | Inl ValueError \<Rightarrow> - 1)"
  have lc: "left_count uw before = int (length before) -
              (case str_rindex (slice_to before start) (CHR '' '') of
                 Inr i \<Rightarrow> int i | Inl ValueError \<Rightarrow> 0)"
    using True by (simp add: left_count_def start_def)
  show ?thesis
  proof (cases "str_rindex (slice_to before start) (CHR '' '')")
    case (Inl e)
    with lc show ?thesis
      by (cases e) simp
  next
    case (Inr i)
    from str_rindex_bound [OF Inr] length_slice_to [of before start] have "i < length before"
      by simp
    with lc Inr show ?thesis
      by simp
  qed
next
  case False
  show ?thesis
  proof (cases "reindex before NON_ALPHANUM_PATTERN_END True")
    case (Inr m)
    obtain s e where m: "m = (s, e)"
      by (cases m)
    from reindex_bounds [of before NON_ALPHANUM_PATTERN_END True s e] Inr m
    have "s < length before"
      by simp
    with False Inr m show ?thesis
      by (simp add: left_count_def)
  next
    case (Inl err)
    then have start: "reindex before NON_ALPHANUM_PATTERN_END True = Inl ValueError"
      by (cases err) simp
    show ?thesis
    proof (cases "reindex before NON_ALPHANUM_PATTERN True")
      case (Inl err')
      with False start show ?thesis
        by (cases err') (simp add: left_count_def)
    next
      case (Inr m)
      obtain s e where m: "m = (s, e)"
        by (cases m)
      from reindex_bounds [of before NON_ALPHANUM_PATTERN True s e] Inr m
      have "s < length before"
        by simp
      with False start Inr m show ?thesis
        by (simp add: left_count_def)
    qed
  qed
qed

lemma right_count_bounds: "0 \<le> right_count uw after \<and> right_count uw after \<le> int (length after)"
proof (cases uw)
  case True
  define end' where "end' = (case reindex after SPACE_PATTERN_START False of
                    Inr (_, end') \<Rightarrow> int end' | Inl ValueError \<Rightarrow> 0)"
  have rc: "right_count uw after =
              (case str_index (slice_from after end') (CHR '' '') of
                 Inr i \<Rightarrow> int i + 1 | Inl ValueError \<Rightarrow> int (length after))"
    using True by (simp add: right_count_def end'_def)
  show ?thesis
  proof (cases "str_index (slice_from after end') (CHR '' '')")
    case (Inl e)
    with rc show ?thesis
      by (cases e) simp
  next
    case (Inr i)
    from str_index_bound [OF Inr] length_slice_from [of after end'] have "i < length after"
      by simp
    with rc Inr show ?thesis
      by simp
  qed
next
  case False
  show ?thesis
  proof (cases "reindex after NON_ALPHANUM_PATTERN_START False")
    case (Inr m)
    obtain s e where m: "m = (s, e)"
      by (cases m)
    from reindex_bounds [of after NON_ALPHANUM_PATTERN_START False s e] Inr m
    have "s < e" "e \<le> length after"
      by simp_all
    with False Inr m show ?thesis
      by (simp add: right_count_def)
  next
    case (Inl err)
    then have start: "reindex after NON_ALPHANUM_PATTERN_START False = Inl ValueError"
      by (cases err) simp
    show ?thesis
    proof (cases "reindex after NON_ALPHANUM_PATTERN False")
      case (Inl err')
      with False start show ?thesis
        by (cases err') (simp add: right_count_def)
    next
      case (Inr m)
      obtain s e where m: "m = (s, e)"
        by (cases m)
      from reindex_bounds [of after NON_ALPHANUM_PATTERN False s e] Inr m
      have "s < e" "e \<le> length after"
        by simp_all
      with False start Inr m show ?thesis
        by (simp add: right_count_def)
    qed
  qed
qed


lemma left_count_foo_b: "left_count True ''foo b'' = 2"
  by (simp add: count_defs pattern_defs)

lemma right_count_bar_baz: "right_count True '' bar baz'' = 4"
  by (simp add: count_defs pattern_defs)

lemma left_count_foo_dash_b: "left_count False ''foo-b'' = 1"
  by (simp add: count_defs pattern_defs)

lemma right_count_bar_dash_baz: "right_count False ''bar-baz'' = 3"
  by (simp add: count_defs pattern_defs)

text \<open>
  C2, as the specification states it, fails, for either delimiter class. In
  \<open>foo bar baz\<close> with the cursor at 5 (inside \<open>bar\<close>), moving left by a word puts
  the cursor at 3 and moving right by a word from there puts it at 7. In \<open>foo-bar-baz\<close>
  with the cursor at 5, moving left by a token puts it at 4 and moving right by a token
  from there puts it at 7. Both times the cursor ends past the original position, and
  no motion has reached the start or the end of the 11 characters.
\<close>

theorem left_then_right_overshoots_counterexample:
  "cursor_pos (line_edit (move_word_left True
       (fresh_session\<lparr>line_edit := \<lparr>current_input = ''foo bar baz'', cursor_pos = 5\<rparr>\<rparr>))) = 3 \<and>
   cursor_pos (line_edit (move_word_right True (move_word_left True
       (fresh_session\<lparr>line_edit := \<lparr>current_input = ''foo bar baz'', cursor_pos = 5\<rparr>\<rparr>)))) = 7 \<and>
   cursor_pos (line_edit (move_word_left False
       (fresh_session\<lparr>line_edit := \<lparr>current_input = ''foo-bar-baz'', cursor_pos = 5\<rparr>\<rparr>))) = 4 \<and>
   cursor_pos (line_edit (move_word_right False (move_word_left False
       (fresh_session\<lparr>line_edit := \<lparr>current_input = ''foo-bar-baz'', cursor_pos = 5\<rparr>\<rparr>)))) = 7 \<and>
   length ''foo bar baz'' = 11 \<and> length ''foo-bar-baz'' = 11"
  by (simp add: move_word_right_line_edit move_word_left_line_edit split_at_cursor_def
        left_count_foo_b right_count_bar_baz left_count_foo_dash_b right_count_bar_dash_baz
        le_left_def le_right_def)

text \<open>
  C2, amended. For every text, cursor position within it and delimiter class: moving
  left by one unit moves the cursor left by exactly the count computed from the text
  before it, so it lands at or before the original position; moving right by one unit
  from there moves it right by exactly the count computed from the text after it, so it
  lands at or after the intermediate position and at or before the end of the text.
  Neither count is cut short by the line editor, and the text is unchanged. The final
  position may lie after the original one.
\<close>

theorem move_left_then_right:
  assumes c: "cursor_pos (line_edit st) \<le> length (current_input (line_edit st))"
  shows "current_input (line_edit (move_word_right uw (move_word_left uw st))) =
           current_input (line_edit st) \<and>
         int (cursor_pos (line_edit (move_word_left uw st))) =
           int (cursor_pos (line_edit st)) -
           left_count uw (take (cursor_pos (line_edit st)) (current_input (line_edit st))) \<and>
         int (cursor_pos (line_edit (move_word_right uw (move_word_left uw st)))) =
           int (cursor_pos (line_edit (move_word_left uw st))) +
           right_count uw (drop (cursor_pos (line_edit (move_word_left uw st)))
                              (current_input (line_edit st))) \<and>
         cursor_pos (line_edit (move_word_left uw st)) \<le> cursor_pos (line_edit st) \<and>
         cursor_pos (line_edit (move_word_left uw st)) \<le>
           cursor_pos (line_edit (move_word_right uw (move_word_left uw st))) \<and>
         cursor_pos (line_edit (move_word_right uw (move_word_left uw st))) \<le>
           length (current_input (line_edit st))"
proof -
  define s where "s = current_input (line_edit st)"
  define c where "c = cursor_pos (line_edit st)"
  define st1 where "st1 = move_word_left uw st"
  define p where "p = cursor_pos (line_edit st1)"
  define r where "r = cursor_pos (line_edit (move_word_right uw st1))"
  from assms have cs: "c \<le> length s"
    by (simp add: c_def s_def)
  have le1: "line_edit st1 = le_left (left_count uw (take c s)) (line_edit st)"
    by (simp add: st1_def move_word_left_line_edit split_at_cursor_def c_def s_def)
  then have s1: "current_input (line_edit st1) = s"
    by (simp add: le_left_def s_def)
  from left_count_bounds [of uw "take c s"] cs
  have lb: "0 \<le> left_count uw (take c s)" "left_count uw (take c s) \<le> int c"
    by simp_all
  from le1 have p: "p = c - nat (left_count uw (take c s))"
    by (simp add: p_def le_left_def c_def)
  with lb have pint: "int p = int c - left_count uw (take c s)" and pc: "p \<le> c"
    by simp_all
  have le2: "line_edit (move_word_right uw st1) = le_right (right_count uw (drop p s)) (line_edit st1)"
    by (simp add: move_word_right_line_edit split_at_cursor_def p_def s1)
  then have s2: "current_input (line_edit (move_word_right uw st1)) = s"
    by (simp add: le_right_def s1)
  from right_count_bounds [of uw "drop p s"]
  have rb: "0 \<le> right_count uw (drop p s)" "right_count uw (drop p s) \<le> int (length s - p)"
    by simp_all
  from le2 have "r = min (length s) (p + nat (right_count uw (drop p s)))"
    by (simp add: r_def le_right_def s1 p_def)
  with rb pc cs have rint: "int r = int p + right_count uw (drop p s)" and pr: "p \<le> r"
    and rs: "r \<le> length s"
    by (auto simp: min_def)
  from s2 pint rint pc pr rs show ?thesis
    unfolding r_def p_def st1_def c_def s_def by blast
qed

theorem move_left_then_right_witness:
  "cursor_pos (line_edit (move_word_left False
       (fresh_session\<lparr>line_edit := \<lparr>current_input = ''foo-bar-baz'', cursor_pos = 5\<rparr>\<rparr>))) \<le> 5 \<and>
   cursor_pos (line_edit (move_word_left False
       (fresh_session\<lparr>line_edit := \<lparr>current_input = ''foo-bar-baz'', cursor_pos = 5\<rparr>\<rparr>))) \<le>
     cursor_pos (line_edit (move_word_right False (move_word_left False
       (fresh_session\<lparr>line_edit := \<lparr>current_input = ''foo-bar-baz'', cursor_pos = 5\<rparr>\<rparr>)))) \<and>
   cursor_pos (line_edit (move_word_right False (move_word_left False
       (fresh_session\<lparr>line_edit := \<lparr>current_input = ''foo-bar-baz'', cursor_pos = 5\<rparr>\<rparr>)))) \<le> 11"
proof -
  let ?st = "fresh_session\<lparr>line_edit := \<lparr>current_input = ''foo-bar-baz'', cursor_pos = 5\<rparr>\<rparr>"
  have inside: "cursor_pos (line_edit ?st) \<le> length (current_input (line_edit ?st))"
    by simp
  from move_left_then_right [OF inside, of False] show ?thesis
    by simp
qed

end
